theory Spec2Isabelle
  imports
    Complex_Main
    "HOL-Library.Log_Nat"
    "HOL-Library.Char_ord"
    "HOL-Library.List_Lexorder"
begin

section \<open>Python values used by the sales module\<close>

text \<open>
  The module computes with \<^verbatim>\<open>decimal.Decimal\<close> under Python's default context:
  28 significant digits, rounding mode \<^verbatim>\<open>ROUND_HALF_EVEN\<close>, traps on
  \<^verbatim>\<open>InvalidOperation\<close> and \<^verbatim>\<open>DivisionByZero\<close>. A finite decimal is
  modelled by its value, a rational number. The operands of \<^verbatim>\<open>+\<close>, \<^verbatim>\<open>-\<close>,
  \<^verbatim>\<open>*\<close> and \<^verbatim>\<open>/\<close> are used exactly and the exact result is rounded to 28
  significant digits. Not modelled: the special values \<^verbatim>\<open>NaN\<close> and
  \<^verbatim>\<open>Infinity\<close>, the sign of zero, and the exponent limits of the context
  (\<^verbatim>\<open>Emax = 999999\<close>), which only numbers of about a million digits reach.
\<close>

datatype error =
  InvalidOperation
  | DivisionByZero
  | ValueError
  | IntegrityError
  | DoesNotExist

definition round_half_even :: "rat \<Rightarrow> int" where
  "round_half_even x =
     (let f = \<lfloor>x\<rfloor>; d = x - of_int f
      in if d < 1 / 2 then f else if 1 / 2 < d then f + 1 else if even f then f else f + 1)"

text \<open>\<open>ilog b x\<close> is the exponent of the leading base-\<open>b\<close> digit of \<open>x > 0\<close>.\<close>

definition ilog :: "nat \<Rightarrow> rat \<Rightarrow> int" where
  "ilog b x =
     (if 1 \<le> x then int (floorlog b (nat \<lfloor>x\<rfloor>)) - 1
      else - int (floorlog b (nat (\<lceil>1 / x\<rceil> - 1))))"

definition round_sig :: "nat \<Rightarrow> nat \<Rightarrow> rat \<Rightarrow> rat" where
  "round_sig b p x =
     (if x = 0 then 0
      else let e = ilog b \<bar>x\<bar> - (int p - 1)
           in of_int (round_half_even (x / power_int (of_nat b) e)) * power_int (of_nat b) e)"

text \<open>The rounding every arithmetic result goes through (\<^verbatim>\<open>prec = 28\<close>).\<close>

definition ctx :: "rat \<Rightarrow> rat" where
  "ctx x = round_sig 10 28 x"

definition dec_add :: "rat \<Rightarrow> rat \<Rightarrow> rat" where
  "dec_add x y = ctx (x + y)"

definition dec_sub :: "rat \<Rightarrow> rat \<Rightarrow> rat" where
  "dec_sub x y = ctx (x - y)"

definition dec_mul :: "rat \<Rightarrow> rat \<Rightarrow> rat" where
  "dec_mul x y = ctx (x * y)"

text \<open>Division by a divisor known not to be zero (the literal \<^verbatim>\<open>Decimal('100')\<close>).\<close>

definition dec_quot :: "rat \<Rightarrow> rat \<Rightarrow> rat" where
  "dec_quot x y = ctx (x / y)"

definition dec_div :: "rat \<Rightarrow> rat \<Rightarrow> error + rat" where
  "dec_div x y =
     (if y = 0 then Inl (if x = 0 then InvalidOperation else DivisionByZero)
      else Inr (dec_quot x y))"

text \<open>
  \<^verbatim>\<open>x.quantize(Decimal('0.01'))\<close>: \<open>x\<close> rounded half-even to two decimal places;
  \<^verbatim>\<open>InvalidOperation\<close> when the result needs more than 28 digits.
\<close>

definition round2 :: "rat \<Rightarrow> rat" where
  "round2 x = of_int (round_half_even (x * 100)) / 100"

definition quantize :: "rat \<Rightarrow> error + rat" where
  "quantize x = (if 10 ^ 26 \<le> \<bar>round2 x\<bar> then Inl InvalidOperation else Inr (round2 x))"

text \<open>
  \<^verbatim>\<open>float(d)\<close> for a decimal \<open>d\<close>: the nearest IEEE 754 binary64 number, ties to
  even, with gradual underflow, and infinity when the rounded value reaches
  \<open>2\<^sup>1\<^sup>0\<^sup>2\<^sup>4\<close>. A finite float is modelled by its exact value.
\<close>

datatype pyfloat = Finite rat | PosInf | NegInf | NaN

definition py_float :: "rat \<Rightarrow> pyfloat" where
  "py_float x =
     (if x = 0 then Finite 0
      else let e = max (ilog 2 \<bar>x\<bar> - 52) (- 1074);
               r = of_int (round_half_even (x / power_int 2 e)) * power_int 2 e
           in if 1024 \<le> ilog 2 \<bar>r\<bar> then (if 0 < x then PosInf else NegInf) else Finite r)"


text \<open>
  Strings are ASCII. \<^verbatim>\<open>int(s)\<close> strips white space, reads an optional sign and
  decimal digits, single underscores allowed between digits, and raises
  \<^verbatim>\<open>ValueError\<close> otherwise.
\<close>

definition is_digit :: "char \<Rightarrow> bool" where
  "is_digit c = (CHR ''0'' \<le> c \<and> c \<le> CHR ''9'')"

definition digit_val :: "char \<Rightarrow> nat" where
  "digit_val c = of_char c - 48"

definition is_space :: "char \<Rightarrow> bool" where
  "is_space c = (c = CHR '' '' \<or> (9 \<le> (of_char c :: nat) \<and> (of_char c :: nat) \<le> 13)
     \<or> (28 \<le> (of_char c :: nat) \<and> (of_char c :: nat) \<le> 31))"

definition strip :: "string \<Rightarrow> string" where
  "strip s = rev (dropWhile is_space (rev (dropWhile is_space s)))"

fun parse_digits :: "nat \<Rightarrow> string \<Rightarrow> nat option" where
  "parse_digits acc [] = Some acc"
| "parse_digits acc (c # cs) =
     (if is_digit c then parse_digits (acc * 10 + digit_val c) cs
      else if c = CHR ''_'' then
        (case cs of
           [] \<Rightarrow> None
         | d # ds \<Rightarrow> if is_digit d then parse_digits (acc * 10 + digit_val d) ds else None)
      else None)"

definition parse_unsigned :: "string \<Rightarrow> nat option" where
  "parse_unsigned s =
     (case s of
        [] \<Rightarrow> None
      | d # ds \<Rightarrow> if is_digit d then parse_digits (digit_val d) ds else None)"

definition py_int :: "string \<Rightarrow> error + int" where
  "py_int s =
     (case strip s of
        [] \<Rightarrow> Inl ValueError
      | c # cs \<Rightarrow>
          if c = CHR ''-'' then
            (case parse_unsigned cs of None \<Rightarrow> Inl ValueError | Some n \<Rightarrow> Inr (- int n))
          else if c = CHR ''+'' then
            (case parse_unsigned cs of None \<Rightarrow> Inl ValueError | Some n \<Rightarrow> Inr (int n))
          else
            (case parse_unsigned (c # cs) of None \<Rightarrow> Inl ValueError | Some n \<Rightarrow> Inr (int n)))"

text \<open>The format specification \<^verbatim>\<open>{n:04d}\<close>: zero padding to width four, sign included.\<close>

definition digit_char :: "nat \<Rightarrow> char" where
  "digit_char n = char_of (48 + n)"

fun digits10 :: "nat \<Rightarrow> string" where
  "digits10 n = (if n < 10 then [digit_char n] else digits10 (n div 10) @ [digit_char (n mod 10)])"

definition zero_pad :: "nat \<Rightarrow> string \<Rightarrow> string" where
  "zero_pad w s = replicate (w - length s) (CHR ''0'') @ s"

definition format_04d :: "int \<Rightarrow> string" where
  "format_04d n =
     (if n < 0 then CHR ''-'' # zero_pad 3 (digits10 (nat (- n))) else zero_pad 4 (digits10 (nat n)))"

text \<open>\<^verbatim>\<open>s.startswith(p)\<close> and \<^verbatim>\<open>s.split('-')[-1]\<close>.\<close>

definition startswith :: "string \<Rightarrow> string \<Rightarrow> bool" where
  "startswith s p = (take (length p) s = p)"

definition split_last :: "string \<Rightarrow> string" where
  "split_last s = rev (takeWhile (\<lambda>c. c \<noteq> CHR ''-'') (rev s))"

section \<open>Line items: \<^verbatim>\<open>SaleItem.save\<close>\<close>

record SaleItem =
  product_id :: int
  is_service :: bool
  quantity :: rat
  unit_price :: rat
  discount_percent :: rat
  tax_rate :: rat
  net_amount :: rat
  tax_amount :: rat
  line_total :: rat

text \<open>
  \<open>tax_included\<close> is \<^verbatim>\<open>StoreConfig.get_solo().tax_included\<close>, read at the start of
  \<^verbatim>\<open>save\<close>. An exception leaves the method before the row is written.
\<close>

definition SaleItem_save :: "bool \<Rightarrow> SaleItem \<Rightarrow> error + SaleItem" where
  "SaleItem_save tax_included self =
     (let discount_amount = dec_mul (unit_price self) (dec_quot (discount_percent self) 100);
          discounted_price = dec_sub (unit_price self) discount_amount
      in if tax_included then
           (let tax_divisor = dec_add 1 (dec_quot (tax_rate self) 100)
            in case dec_div discounted_price tax_divisor of
                 Inl e \<Rightarrow> Inl e
               | Inr net_unit \<Rightarrow>
                   (case quantize (dec_mul net_unit (quantity self)) of
                      Inl e \<Rightarrow> Inl e
                    | Inr net \<Rightarrow>
                        (case quantize (dec_mul discounted_price (quantity self)) of
                           Inl e \<Rightarrow> Inl e
                         | Inr gross \<Rightarrow>
                             (case quantize (dec_sub gross net) of
                                Inl e \<Rightarrow> Inl e
                              | Inr tax \<Rightarrow>
                                  Inr (self\<lparr>net_amount := net, line_total := gross,
                                         tax_amount := tax\<rparr>)))))
         else
           (case quantize (dec_mul discounted_price (quantity self)) of
              Inl e \<Rightarrow> Inl e
            | Inr net \<Rightarrow>
                (case quantize (dec_mul net (dec_quot (tax_rate self) 100)) of
                   Inl e \<Rightarrow> Inl e
                 | Inr tax \<Rightarrow>
                     (case quantize (dec_add net tax) of
                        Inl e \<Rightarrow> Inl e
                      | Inr gross \<Rightarrow>
                          Inr (self\<lparr>net_amount := net, tax_amount := tax,
                                 line_total := gross\<rparr>)))))"


text \<open>
  A \<^verbatim>\<open>DecimalField(max_digits=10, decimal_places=2)\<close> holds a multiple of 0.01 below
  \<open>10\<^sup>8\<close>; \<open>is_cents\<close> is the first half of that.
\<close>

definition is_cents :: "rat \<Rightarrow> bool" where
  "is_cents x = (of_int \<lfloor>x * 100\<rfloor> = x * 100)"



section \<open>Sales: \<^verbatim>\<open>Sale.calculate_totals\<close>\<close>

datatype payment = PAYMENT_CASH | PAYMENT_CARD | PAYMENT_TRANSFER | PAYMENT_MIXED

datatype sale_state = STATUS_PENDING | STATUS_COMPLETED | STATUS_CANCELLED

text \<open>
  The fields \<^verbatim>\<open>status\<close> and \<^verbatim>\<open>tax_amount\<close> of \<^verbatim>\<open>Sale\<close> are \<open>sale_status\<close> and
  \<open>sale_tax_amount\<close> here, the plain names being taken by the cash register and the
  line item. The key of the tax breakdown is \<^verbatim>\<open>str(item.tax_rate)\<close>; the items are
  read back from the table, where every rate has two decimal places, so the key is
  modelled by the rate itself.
\<close>

record Sale =
  sale_number :: string
  sale_status :: sale_state
  subtotal :: rat
  sale_tax_amount :: rat
  tax_breakdown :: "(rat \<times> pyfloat \<times> pyfloat) list"
  discount_amount :: rat
  total :: rat
  payment_method :: payment
  amount_paid :: rat
  change_given :: rat

text \<open>
  One pass of the loop body on the \<^verbatim>\<open>defaultdict\<close>: a rate not seen yet gets the
  entry \<^verbatim>\<open>{'base': 0.00, 'tax': 0.00}\<close> at the end, then both amounts are added.
\<close>

fun breakdown_add :: "rat \<Rightarrow> rat \<Rightarrow> rat \<Rightarrow> (rat \<times> rat \<times> rat) list \<Rightarrow> (rat \<times> rat \<times> rat) list" where
  "breakdown_add rate_key net tax [] = [(rate_key, dec_add 0 net, dec_add 0 tax)]"
| "breakdown_add rate_key net tax ((k, base, t) # rest) =
     (if k = rate_key then (k, dec_add base net, dec_add t tax) # rest
      else (k, base, t) # breakdown_add rate_key net tax rest)"

text \<open>The loop over \<^verbatim>\<open>self.items.all()\<close>, on (total_net, total_tax, total_gross, tax_breakdown).\<close>

fun sum_items :: "SaleItem list \<Rightarrow> rat \<times> rat \<times> rat \<times> (rat \<times> rat \<times> rat) list
    \<Rightarrow> rat \<times> rat \<times> rat \<times> (rat \<times> rat \<times> rat) list" where
  "sum_items [] acc = acc"
| "sum_items (item # items) (total_net, total_tax, total_gross, breakdown) =
     sum_items items
       (dec_add total_net (net_amount item),
        dec_add total_tax (tax_amount item),
        dec_add total_gross (line_total item),
        breakdown_add (tax_rate item) (net_amount item) (tax_amount item) breakdown)"

definition calculate_totals :: "SaleItem list \<Rightarrow> Sale \<Rightarrow> Sale" where
  "calculate_totals items self =
     (case sum_items items (0, 0, 0, []) of
        (total_net, total_tax, total_gross, breakdown) \<Rightarrow>
          (let new_total = dec_sub total_gross (discount_amount self)
           in self\<lparr>subtotal := total_net,
                   sale_tax_amount := total_tax,
                   tax_breakdown := map (\<lambda>(k, base, t). (k, py_float base, py_float t)) breakdown,
                   total := new_total,
                   change_given :=
                     (if new_total < amount_paid self then dec_sub (amount_paid self) new_total
                      else 0)\<rparr>))"


text \<open>Exact sums are possible when the summands are cents and stay below \<open>10\<^sup>2\<^sup>6\<close>.\<close>

definition exact_amounts :: "rat list \<Rightarrow> bool" where
  "exact_amounts xs = ((\<forall>x \<in> set xs. is_cents x) \<and> sum_list (map abs xs) < 10 ^ 26)"

section \<open>Document numbers: \<^verbatim>\<open>Sale.save\<close> and \<^verbatim>\<open>ParkedTicket.save\<close>\<close>

text \<open>
  A table is represented by the list of the document numbers of its rows. The query
  \<^verbatim>\<open>filter(number__startswith=p).order_by('-number').first()\<close> returns the greatest
  number with the prefix, in the order of the character codes.
\<close>

definition greatest :: "string list \<Rightarrow> string option" where
  "greatest xs = (case xs of [] \<Rightarrow> None | x # rest \<Rightarrow> Some (fold max rest x))"

definition generate_number :: "string \<Rightarrow> string \<Rightarrow> string list \<Rightarrow> error + string" where
  "generate_number prefix today table =
     (case greatest (filter (\<lambda>s. startswith s (prefix @ ''-'' @ today)) table) of
        None \<Rightarrow> Inr (prefix @ ''-'' @ today @ ''-'' @ format_04d 1)
      | Some last_number \<Rightarrow>
          (case py_int (split_last last_number) of
             Inl e \<Rightarrow> Inl e
           | Inr last_num \<Rightarrow> Inr (prefix @ ''-'' @ today @ ''-'' @ format_04d (last_num + 1))))"

text \<open>The insert of \<^verbatim>\<open>super().save()\<close> under the \<^verbatim>\<open>unique=True\<close> constraint.\<close>

definition insert_row :: "string \<Rightarrow> string list \<Rightarrow> error + string list" where
  "insert_row number table =
     (if number \<in> set table then Inl IntegrityError else Inr (table @ [number]))"

text \<open>Saving a new object without a number: the number issued and the new table.\<close>

definition save_new :: "string \<Rightarrow> string \<Rightarrow> string list \<Rightarrow> error + string \<times> string list" where
  "save_new prefix today table =
     (case generate_number prefix today table of
        Inl e \<Rightarrow> Inl e
      | Inr number \<Rightarrow>
          (case insert_row number table of
             Inl e \<Rightarrow> Inl e
           | Inr table' \<Rightarrow> Inr (number, table')))"

definition Sale_save :: "string \<Rightarrow> string list \<Rightarrow> error + string \<times> string list" where
  "Sale_save today table = save_new ''SALE'' today table"

definition ParkedTicket_save :: "string \<Rightarrow> string list \<Rightarrow> error + string \<times> string list" where
  "ParkedTicket_save today table = save_new ''PARK'' today table"

definition delete_row :: "string \<Rightarrow> string list \<Rightarrow> string list" where
  "delete_row number table = removeAll number table"

text \<open>
  Issue and delete operations of one day, run in order; the numbers issued are
  collected, and the first exception ends the run.
\<close>

datatype operation = Issue | Delete string

fun run_ops :: "string \<Rightarrow> string \<Rightarrow> operation list \<Rightarrow> string list \<Rightarrow> error + string list \<times> string list" where
  "run_ops prefix today [] table = Inr ([], table)"
| "run_ops prefix today (Issue # ops) table =
     (case save_new prefix today table of
        Inl e \<Rightarrow> Inl e
      | Inr (number, table') \<Rightarrow>
          (case run_ops prefix today ops table' of
             Inl e \<Rightarrow> Inl e
           | Inr (issued, table'') \<Rightarrow> Inr (number # issued, table'')))"
| "run_ops prefix today (Delete number # ops) table =
     run_ops prefix today ops (delete_row number table)"

text \<open>
  Concurrent callers. \<^verbatim>\<open>save\<close> makes two separate accesses to the table, the query
  for the last number and the insert; callers interleave between them. A schedule
  names the caller that makes its next access.
\<close>

datatype caller = Idle | Computed string | Finished "error + string"

definition caller_step :: "string \<Rightarrow> string \<Rightarrow> caller \<Rightarrow> string list \<Rightarrow> caller \<times> string list" where
  "caller_step prefix today c table =
     (case c of
        Idle \<Rightarrow>
          (case generate_number prefix today table of
             Inl e \<Rightarrow> (Finished (Inl e), table)
           | Inr number \<Rightarrow> (Computed number, table))
      | Computed number \<Rightarrow>
          (case insert_row number table of
             Inl e \<Rightarrow> (Finished (Inl e), table)
           | Inr table' \<Rightarrow> (Finished (Inr number), table'))
      | Finished r \<Rightarrow> (Finished r, table))"

fun run :: "string \<Rightarrow> string \<Rightarrow> nat list \<Rightarrow> caller list \<times> string list \<Rightarrow> caller list \<times> string list" where
  "run prefix today [] state = state"
| "run prefix today (i # schedule) (callers, table) =
     (if i < length callers then
        (case caller_step prefix today (callers ! i) table of
           (c, table') \<Rightarrow> run prefix today schedule (callers[i := c], table'))
      else run prefix today schedule (callers, table))"

text \<open>The numbers won: the callers that finished with a number, by position.\<close>

definition won :: "caller list \<Rightarrow> nat \<Rightarrow> string \<Rightarrow> bool" where
  "won callers i number = (i < length callers \<and> callers ! i = Finished (Inr number))"

section \<open>Cash register: \<^verbatim>\<open>CashRegister.calculate_expected_amount\<close>, \<^verbatim>\<open>close_register\<close>\<close>

datatype movement_kind = TYPE_IN | TYPE_OUT

record CashMovement =
  movement_type :: movement_kind
  amount :: rat

datatype register_state = STATUS_OPEN | STATUS_CLOSED

record CashRegister =
  status :: register_state
  initial_amount :: rat
  final_amount :: "rat option"
  expected_amount :: "rat option"
  difference :: "rat option"
  closing_notes :: string
  closed_at :: "nat option"

text \<open>
  \<^verbatim>\<open>aggregate(total=Sum(...))['total']\<close> is \<^verbatim>\<open>None\<close> on no rows and the sum
  computed by the database otherwise; \<^verbatim>\<open>v or Decimal('0.00')\<close> replaces
  \<^verbatim>\<open>None\<close> and zero by zero.
\<close>

definition db_sum :: "rat list \<Rightarrow> rat option" where
  "db_sum xs = (if xs = [] then None else Some (sum_list xs))"

definition or_zero :: "rat option \<Rightarrow> rat" where
  "or_zero v = (case v of None \<Rightarrow> 0 | Some x \<Rightarrow> if x = 0 then 0 else x)"

text \<open>
  \<open>movements\<close> is \<^verbatim>\<open>self.movements\<close> and \<open>sales\<close> is \<^verbatim>\<open>self.sales\<close>, the rows
  that refer to this register.
\<close>

definition calculate_expected_amount :: "CashMovement list \<Rightarrow> Sale list \<Rightarrow> CashRegister \<Rightarrow> CashRegister" where
  "calculate_expected_amount movements sales self =
     (let movements_in =
            or_zero (db_sum (map amount (filter (\<lambda>m. movement_type m = TYPE_IN) movements)));
          movements_out =
            or_zero (db_sum (map amount (filter (\<lambda>m. movement_type m = TYPE_OUT) movements)));
          cash_sales =
            or_zero (db_sum (map total (filter (\<lambda>s. payment_method s = PAYMENT_CASH) sales)))
      in self\<lparr>expected_amount :=
                Some (dec_sub (dec_add (dec_add (initial_amount self) cash_sales) movements_in)
                        movements_out)\<rparr>)"

text \<open>
  The expected amount as the specification words it (section 4.6): only completed
  cash-paid sales count.
\<close>

definition spec_expected :: "CashMovement list \<Rightarrow> Sale list \<Rightarrow> CashRegister \<Rightarrow> rat" where
  "spec_expected movements sales session =
     initial_amount session
     + sum_list (map amount (filter (\<lambda>m. movement_type m = TYPE_IN) movements))
     - sum_list (map amount (filter (\<lambda>m. movement_type m = TYPE_OUT) movements))
     + sum_list (map total (filter (\<lambda>s. payment_method s = PAYMENT_CASH
                                         \<and> sale_status s = STATUS_COMPLETED) sales))"

definition close_register :: "nat \<Rightarrow> CashMovement list \<Rightarrow> Sale list \<Rightarrow> rat \<Rightarrow> string \<Rightarrow> CashRegister \<Rightarrow> CashRegister" where
  "close_register now movements sales final closing self =
     (let self1 = self\<lparr>final_amount := Some final, closing_notes := closing,
                        closed_at := Some now, status := STATUS_CLOSED\<rparr>;
          self2 = calculate_expected_amount movements sales self1
      in case expected_amount self2 of
           None \<Rightarrow> self2
         | Some expected \<Rightarrow> self2\<lparr>difference := Some (dec_sub final expected)\<rparr>)"

section \<open>Finalising a sale: the item loop of \<^verbatim>\<open>complete_sale\<close>\<close>

text \<open>
  A product of the inventory plugin, as far as the loop reads and writes it:
  \<^verbatim>\<open>stock\<close>, \<^verbatim>\<open>is_service\<close> and the result of \<^verbatim>\<open>get_tax_rate()\<close>.
\<close>

record Product =
  stock :: int
  product_is_service :: bool
  product_tax_rate :: rat

text \<open>
  A value of the request's JSON: an integer, a float (by its exact value) or a string.
  \<^verbatim>\<open>int(v)\<close> truncates a float toward zero and parses a string.
\<close>

datatype json = JInt int | JFloat rat | JStr string

definition json_int :: "json \<Rightarrow> error + int" where
  "json_int v =
     (case v of
        JInt n \<Rightarrow> Inr n
      | JFloat f \<Rightarrow> Inr (if 0 \<le> f then \<lfloor>f\<rfloor> else \<lceil>f\<rceil>)
      | JStr s \<Rightarrow> py_int s)"

record item_data =
  item_product_id :: int
  item_quantity :: json
  item_price :: json
  item_discount :: "json option"

text \<open>
  One pass of the loop, on the products and the line items created so far.
  \<open>decimal_of\<close> is the library conversion \<^verbatim>\<open>Decimal(str(v))\<close>, a parameter. The
  view runs outside a transaction: what was written before an exception stays.
\<close>

definition complete_sale_item :: "bool \<Rightarrow> (json \<Rightarrow> error + rat) \<Rightarrow> item_data
    \<Rightarrow> (int \<rightharpoonup> Product) \<times> SaleItem list \<Rightarrow> ((int \<rightharpoonup> Product) \<times> SaleItem list) \<times> error option" where
  "complete_sale_item tax_included decimal_of entry state =
     (case state of (products, items) \<Rightarrow>
        (case products (item_product_id entry) of
           None \<Rightarrow> (state, Some DoesNotExist)
         | Some product \<Rightarrow>
             (case decimal_of (item_quantity entry) of
                Inl e \<Rightarrow> (state, Some e)
              | Inr qty \<Rightarrow>
                  (case decimal_of (item_price entry) of
                     Inl e \<Rightarrow> (state, Some e)
                   | Inr price \<Rightarrow>
                       (case decimal_of (case item_discount entry of None \<Rightarrow> JInt 0 | Some v \<Rightarrow> v) of
                          Inl e \<Rightarrow> (state, Some e)
                        | Inr discount \<Rightarrow>
                            (case SaleItem_save tax_included
                                    \<lparr>product_id = item_product_id entry,
                                     is_service = product_is_service product,
                                     quantity = qty, unit_price = price,
                                     discount_percent = discount,
                                     tax_rate = product_tax_rate product,
                                     net_amount = 0, tax_amount = 0, line_total = 0\<rparr> of
                               Inl e \<Rightarrow> (state, Some e)
                             | Inr saved \<Rightarrow>
                                 if \<not> product_is_service product then
                                   (case json_int (item_quantity entry) of
                                      Inl e \<Rightarrow> ((products, items @ [saved]), Some e)
                                    | Inr n \<Rightarrow>
                                        ((products(item_product_id entry \<mapsto>
                                            product\<lparr>stock := stock product - n\<rparr>),
                                          items @ [saved]), None))
                                 else ((products, items @ [saved]), None)))))))"

fun complete_sale_items :: "bool \<Rightarrow> (json \<Rightarrow> error + rat) \<Rightarrow> item_data list
    \<Rightarrow> (int \<rightharpoonup> Product) \<times> SaleItem list \<Rightarrow> ((int \<rightharpoonup> Product) \<times> SaleItem list) \<times> error option" where
  "complete_sale_items tax_included decimal_of [] state = (state, None)"
| "complete_sale_items tax_included decimal_of (entry # entries) state =
     (case complete_sale_item tax_included decimal_of entry state of
        (state', Some e) \<Rightarrow> (state', Some e)
      | (state', None) \<Rightarrow> complete_sale_items tax_included decimal_of entries state')"

section \<open>Example data\<close>


definition spec_line_inclusive :: SaleItem where
  "spec_line_inclusive =
     \<lparr>product_id = 1, is_service = False, quantity = 1, unit_price = 121 / 10,
      discount_percent = 0, tax_rate = 21, net_amount = 0, tax_amount = 0, line_total = 0\<rparr>"

text \<open>Stored lines, a sale and a register session for the examples below.\<close>

definition line_10 :: SaleItem where
  "line_10 =
     \<lparr>product_id = 1, is_service = False, quantity = 1, unit_price = 10,
      discount_percent = 0, tax_rate = 0, net_amount = 10, tax_amount = 0, line_total = 10\<rparr>"

definition new_sale :: Sale where
  "new_sale =
     \<lparr>sale_number = ''SALE-20250101-0001'', sale_status = STATUS_COMPLETED, subtotal = 0,
      sale_tax_amount = 0, tax_breakdown = [], discount_amount = 0, total = 0,
      payment_method = PAYMENT_CASH, amount_paid = 0, change_given = 0\<rparr>"



definition open_register :: CashRegister where
  "open_register =
     \<lparr>status = STATUS_OPEN, initial_amount = 100, final_amount = None, expected_amount = None,
      difference = None, closing_notes = [], closed_at = None\<rparr>"

definition spec_movements :: "CashMovement list" where
  "spec_movements =
     [\<lparr>movement_type = TYPE_IN, amount = 50\<rparr>, \<lparr>movement_type = TYPE_OUT, amount = 20\<rparr>]"

definition cash_sale_75 :: Sale where
  "cash_sale_75 = new_sale\<lparr>total := 75\<rparr>"

definition closed_register :: CashRegister where
  "closed_register =
     \<lparr>status = STATUS_CLOSED, initial_amount = 100, final_amount = Some 200,
      expected_amount = Some 205, difference = Some (- 5), closing_notes = ''first count'',
      closed_at = Some 10\<rparr>"

section \<open>Properties of the decimal arithmetic\<close>

lemma round_half_even_of_int [simp]: "round_half_even (of_int n) = n"
  by (simp add: round_half_even_def)

lemma round_half_even_ge:
  assumes "of_int n \<le> x"
  shows "n \<le> round_half_even x"
proof -
  have "n \<le> \<lfloor>x\<rfloor>" using assms by (simp add: le_floor_iff)
  then show ?thesis by (simp add: round_half_even_def Let_def)
qed

lemma round_half_even_le:
  assumes "x \<le> of_int n"
  shows "round_half_even x \<le> n"
proof -
  have f: "\<lfloor>x\<rfloor> \<le> n" using assms by (simp add: floor_le_iff)
  show ?thesis
  proof (cases "x - of_int \<lfloor>x\<rfloor> < 1 / 2")
    case True
    then show ?thesis using f by (simp add: round_half_even_def)
  next
    case False
    then have "of_int \<lfloor>x\<rfloor> < x" by simp
    then have "of_int \<lfloor>x\<rfloor> < (of_int n :: rat)" using assms by linarith
    then have "\<lfloor>x\<rfloor> + 1 \<le> n" by simp
    then show ?thesis using f by (simp add: round_half_even_def Let_def)
  qed
qed

lemma ilog_lower:
  assumes b: "1 < b" and x: "0 < x"
  shows "power_int (of_nat b) (ilog b x) \<le> x"
proof (cases "1 \<le> x")
  case True
  define n where "n = nat \<lfloor>x\<rfloor>"
  have n: "0 < n" using True by (simp add: n_def)
  have "b ^ (floorlog b n - 1) \<le> n" using floorlog_bounds[OF n b] by simp
  then have "(of_nat (b ^ (floorlog b n - 1)) :: rat) \<le> of_nat n" by (simp only: of_nat_le_iff)
  also have "(of_nat n :: rat) = of_int \<lfloor>x\<rfloor>" using True by (simp add: n_def)
  also have "\<dots> \<le> x" by simp
  finally have le: "(of_nat b :: rat) ^ (floorlog b n - 1) \<le> x" by simp
  have pos: "0 < floorlog b n" using floorlog_eq_zero_iff[of b n] n b by auto
  have "ilog b x = int (floorlog b n - 1)" using True pos by (simp add: ilog_def n_def)
  then show ?thesis using le by simp
next
  case False
  define m where "m = \<lceil>1 / x\<rceil>"
  define n where "n = nat (m - 1)"
  have "1 < 1 / x" using False x by simp
  then have m2: "2 \<le> m" unfolding m_def by (simp add: le_ceiling_iff)
  then have n: "0 < n" by (simp add: n_def)
  have "n < b ^ floorlog b n" using floorlog_bounds[OF n b] by simp
  then have "int n < int (b ^ floorlog b n)" by (simp only: of_nat_less_iff)
  then have "m \<le> int b ^ floorlog b n" using m2 by (simp add: n_def)
  then have "(of_int m :: rat) \<le> of_int (int b ^ floorlog b n)" by (simp only: of_int_le_iff)
  moreover have "1 / x \<le> of_int m" unfolding m_def by simp
  ultimately have "1 / x \<le> (of_nat b :: rat) ^ floorlog b n" by simp
  then have "1 / (of_nat b :: rat) ^ floorlog b n \<le> x"
    using x b by (simp add: field_simps)
  moreover have "ilog b x = - int (floorlog b n)" using False by (simp add: ilog_def n_def m_def)
  ultimately show ?thesis by (simp add: power_int_minus_divide)
qed

lemma ilog_upper:
  assumes b: "1 < b" and x: "0 < x"
  shows "x < power_int (of_nat b) (ilog b x + 1)"
proof (cases "1 \<le> x")
  case True
  define n where "n = nat \<lfloor>x\<rfloor>"
  have n: "0 < n" using True by (simp add: n_def)
  have "n < b ^ floorlog b n" using floorlog_bounds[OF n b] by simp
  then have "n + 1 \<le> b ^ floorlog b n" by simp
  then have "(of_nat (n + 1) :: rat) \<le> of_nat (b ^ floorlog b n)" by (simp only: of_nat_le_iff)
  moreover have "(of_nat n :: rat) = of_int \<lfloor>x\<rfloor>" using True by (simp add: n_def)
  moreover have "x < of_int \<lfloor>x\<rfloor> + 1" by linarith
  ultimately have lt: "x < (of_nat b :: rat) ^ floorlog b n" by simp
  have pos: "0 < floorlog b n" using floorlog_eq_zero_iff[of b n] n b by auto
  have "ilog b x + 1 = int (floorlog b n)" using True pos by (simp add: ilog_def n_def)
  then show ?thesis using lt by simp
next
  case False
  define m where "m = \<lceil>1 / x\<rceil>"
  define n where "n = nat (m - 1)"
  have "1 < 1 / x" using False x by simp
  then have m2: "2 \<le> m" unfolding m_def by (simp add: le_ceiling_iff)
  then have n: "0 < n" by (simp add: n_def)
  have pos: "0 < floorlog b n" using floorlog_eq_zero_iff[of b n] n b by auto
  have "b ^ (floorlog b n - 1) \<le> n" using floorlog_bounds[OF n b] by simp
  then have "int (b ^ (floorlog b n - 1)) \<le> int n" by (simp only: of_nat_le_iff)
  then have "int b ^ (floorlog b n - 1) \<le> m - 1" using m2 by (simp add: n_def)
  then have "(of_int (int b ^ (floorlog b n - 1)) :: rat) \<le> of_int (m - 1)" by (simp only: of_int_le_iff)
  moreover have "of_int (m - 1) < 1 / x" unfolding m_def by linarith
  ultimately have "(of_nat b :: rat) ^ (floorlog b n - 1) < 1 / x" by simp
  then have lt: "x < 1 / (of_nat b :: rat) ^ (floorlog b n - 1)"
    using x b by (simp add: field_simps)
  have "ilog b x + 1 = - int (floorlog b n - 1)" using False pos by (simp add: ilog_def n_def m_def)
  then show ?thesis using lt by (simp add: power_int_minus_divide)
qed


lemma pow10_less_exp:
  assumes "power_int (10::rat) m < power_int 10 n"
  shows "m < n"
proof (rule ccontr)
  assume "\<not> m < n"
  then have "n \<le> m" by simp
  then have "power_int (10::rat) n \<le> power_int 10 m" by (rule power_int_increasing) simp
  then show False using assms by simp
qed

lemma ctx_exact:
  assumes eq: "x * 10 ^ k = of_int n" and n: "\<bar>n\<bar> < 10 ^ 28"
  shows "ctx x = x"
proof (cases "x = 0")
  case True
  then show ?thesis by (simp add: ctx_def round_sig_def)
next
  case False
  define a where "a = ilog 10 \<bar>x\<bar>"
  define e where "e = a - 27"
  have xpos: "0 < \<bar>x\<bar>" using False by simp
  have lo: "power_int 10 a \<le> \<bar>x\<bar>"
    using ilog_lower[of 10 "\<bar>x\<bar>"] xpos by (simp add: a_def)
  have "\<bar>x * 10 ^ k\<bar> = \<bar>of_int n :: rat\<bar>" using eq by simp
  then have "\<bar>x\<bar> * 10 ^ k = of_int \<bar>n\<bar>"
    by (simp add: abs_mult)
  also have "\<dots> < (10::rat) ^ 28" using n by (metis of_int_less_iff of_int_numeral of_int_power)
  finally have "\<bar>x\<bar> * 10 ^ k < (10::rat) ^ 28" .
  moreover have "power_int 10 a * 10 ^ k \<le> \<bar>x\<bar> * (10::rat) ^ k"
    using lo by simp
  ultimately have "power_int 10 a * 10 ^ k < (10::rat) ^ 28" by (rule le_less_trans[rotated])
  moreover have "power_int (10::rat) (a + int k) = power_int 10 a * 10 ^ k"
    by (simp add: power_int_add)
  moreover have "power_int (10::rat) 28 = 10 ^ 28" by (rule power_int_numeral)
  ultimately have "power_int (10::rat) (a + int k) < power_int 10 28"
    by (simp only:)
  then have "a + int k < 28" by (rule pow10_less_exp)
  then have ek: "0 \<le> - e - int k" by (simp add: e_def)
  define j where "j = nat (- e - int k)"
  have "x / power_int 10 e = x * power_int 10 (- e)"
    by (simp add: power_int_minus field_simps)
  also have "- e = int k + int j" using ek by (simp add: j_def)
  also have "x * power_int 10 (int k + int j) = x * 10 ^ k * 10 ^ j"
    by (simp add: power_int_add)
  also have "\<dots> = of_int (n * 10 ^ j)" using eq by simp
  finally have "x / power_int 10 e = of_int (n * 10 ^ j)" .
  then have "of_int (round_half_even (x / power_int 10 e)) * power_int 10 e = x"
    by (metis round_half_even_of_int nonzero_eq_divide_eq power_int_eq_0_iff zero_neq_numeral)
  then show ?thesis using False by (simp add: ctx_def round_sig_def Let_def a_def e_def)
qed

lemma ctx_ge_pow:
  assumes "power_int 10 j \<le> x"
  shows "power_int 10 j \<le> ctx x"
proof -
  have xpos: "0 < x" using assms by (smt (verit) power_int_eq_0_iff zero_less_power_int zero_less_numeral less_le_trans)
  define a where "a = ilog 10 \<bar>x\<bar>"
  define e where "e = a - 27"
  have lo: "power_int 10 a \<le> x"
    using ilog_lower[of 10 "\<bar>x\<bar>"] xpos by (simp add: a_def)
  have up: "x < power_int 10 (a + 1)"
    using ilog_upper[of 10 "\<bar>x\<bar>"] xpos by (simp add: a_def)
  have "power_int (10::rat) j < power_int 10 (a + 1)" using assms up by linarith
  then have ja: "j \<le> a" using pow10_less_exp by fastforce
  have epos: "0 < power_int (10::rat) e" by (simp add: zero_less_power_int)
  have "power_int 10 a / power_int 10 e \<le> x / power_int (10::rat) e"
    using lo epos by (simp add: divide_right_mono)
  moreover have "power_int 10 a / power_int (10::rat) e = power_int 10 (a - e)"
    by (simp add: power_int_diff)
  moreover have "power_int (10::rat) (a - e) = of_int (10 ^ 27)" by (simp add: e_def)
  ultimately have "of_int (10 ^ 27) \<le> x / power_int (10::rat) e" by simp
  then have "10 ^ 27 \<le> round_half_even (x / power_int 10 e)" by (rule round_half_even_ge)
  then have "(of_int (10 ^ 27) :: rat) \<le> of_int (round_half_even (x / power_int 10 e))"
    by (simp only: of_int_le_iff)
  then have "of_int (10 ^ 27) * power_int (10::rat) e \<le> of_int (round_half_even (x / power_int 10 e)) * power_int 10 e"
    using epos by (simp only: mult_le_cancel_right_pos)
  moreover have "of_int (10 ^ 27) * power_int (10::rat) e = power_int 10 a"
    by (simp add: e_def power_int_diff)
  moreover have "power_int (10::rat) j \<le> power_int 10 a" using ja by (simp add: power_int_increasing)
  ultimately have "power_int (10::rat) j \<le> of_int (round_half_even (x / power_int 10 e)) * power_int 10 e" by linarith
  then show ?thesis using xpos by (simp add: ctx_def round_sig_def Let_def a_def e_def)
qed


lemma round_half_even_minus: "round_half_even (- x) = - round_half_even x"
proof (cases "x \<in> \<int>")
  case True
  then obtain n where "x = of_int n" by (auto elim: Ints_cases)
  then show ?thesis by (simp flip: of_int_minus)
next
  case False
  then have "x \<noteq> of_int \<lfloor>x\<rfloor>" by (metis Ints_of_int)
  then have fl: "\<lfloor>- x\<rfloor> = - \<lfloor>x\<rfloor> - 1"
    by (simp add: floor_minus ceiling_altdef)
  show ?thesis
    unfolding round_half_even_def Let_def fl
    by (auto simp: field_simps)
qed

lemma ctx_minus: "ctx (- x) = - ctx x"
  by (simp add: ctx_def round_sig_def Let_def round_half_even_minus)

lemma ctx_0 [simp]: "ctx 0 = 0"
  by (simp add: ctx_def round_sig_def)

lemma ctx_pos: "0 < x \<Longrightarrow> 0 < ctx x"
proof -
  assume x: "0 < x"
  have "power_int 10 (ilog 10 \<bar>x\<bar>) \<le> x" using ilog_lower[of 10 "\<bar>x\<bar>"] x by simp
  then have "power_int 10 (ilog 10 \<bar>x\<bar>) \<le> ctx x" by (rule ctx_ge_pow)
  moreover have "0 < power_int (10::rat) (ilog 10 \<bar>x\<bar>)" by simp
  ultimately show ?thesis by linarith
qed

lemma ctx_nonneg: "0 \<le> x \<Longrightarrow> 0 \<le> ctx x"
  using ctx_pos[of x] by (cases "x = 0") auto

lemma ctx_abs: "\<bar>ctx x\<bar> = ctx \<bar>x\<bar>"
proof (cases "0 \<le> x")
  case True
  then show ?thesis using ctx_nonneg[of x] by simp
next
  case False
  then have "0 \<le> ctx (- x)" by (intro ctx_nonneg) simp
  then show ?thesis using False by (simp add: ctx_minus)
qed


lemma is_cents_iff: "is_cents x \<longleftrightarrow> (\<exists>n. x = of_int n / 100)"
proof
  assume "is_cents x"
  then have eq: "x * 100 = of_int \<lfloor>x * 100\<rfloor>" unfolding is_cents_def by (rule sym)
  have "x = x * 100 / 100" by simp
  also have "\<dots> = of_int \<lfloor>x * 100\<rfloor> / 100" by (subst eq) (rule refl)
  finally show "\<exists>n. x = of_int n / 100" ..
next
  assume "\<exists>n. x = of_int n / 100"
  then obtain n where "x = of_int n / 100" ..
  then show "is_cents x" by (simp add: is_cents_def)
qed

lemma is_cents_round2 [simp]: "is_cents (round2 x)"
  by (simp add: is_cents_def round2_def)

lemma round2_cents: "is_cents x \<Longrightarrow> round2 x = x"
  by (auto simp: is_cents_iff round2_def)

lemma is_cents_add: "is_cents x \<Longrightarrow> is_cents y \<Longrightarrow> is_cents (x + y)"
proof -
  assume "is_cents x" "is_cents y"
  then obtain n m where "x = of_int n / 100" "y = of_int m / 100" by (auto simp: is_cents_iff)
  then have "x + y = of_int (n + m) / 100" by (simp add: add_divide_distrib)
  then show ?thesis unfolding is_cents_iff ..
qed

lemma is_cents_diff: "is_cents x \<Longrightarrow> is_cents y \<Longrightarrow> is_cents (x - y)"
proof -
  assume "is_cents x" "is_cents y"
  then obtain n m where "x = of_int n / 100" "y = of_int m / 100" by (auto simp: is_cents_iff)
  then have "x - y = of_int (n - m) / 100" by (simp add: diff_divide_distrib)
  then show ?thesis unfolding is_cents_iff ..
qed

lemma is_cents_0 [simp]: "is_cents 0"
  by (simp add: is_cents_def)

lemma ctx_cents:
  assumes "is_cents x" "\<bar>x\<bar> < 10 ^ 26"
  shows "ctx x = x"
proof -
  obtain n where n: "x = of_int n / 100" using assms(1) by (auto simp: is_cents_iff)
  have "\<bar>of_int n :: rat\<bar> < 10 ^ 28" using assms(2) by (simp add: n)
  then have "(of_int \<bar>n\<bar> :: rat) < of_int (10 ^ 28)" by simp
  then have "\<bar>n\<bar> < 10 ^ 28" by (simp only: of_int_less_iff)
  moreover have "x * 10 ^ 2 = of_int n" by (simp add: n)
  ultimately show ?thesis by (rule ctx_exact[rotated])
qed

lemma ctx_ge_26:
  assumes "10 ^ 26 \<le> \<bar>x\<bar>"
  shows "10 ^ 26 \<le> \<bar>ctx x\<bar>"
proof -
  have "power_int 10 26 \<le> \<bar>x\<bar>" using assms by simp
  then have "power_int 10 26 \<le> ctx \<bar>x\<bar>" by (rule ctx_ge_pow)
  then show ?thesis by (simp add: ctx_abs)
qed

lemma round2_ge_26:
  assumes "10 ^ 26 \<le> \<bar>x\<bar>"
  shows "10 ^ 26 \<le> \<bar>round2 x\<bar>"
proof (cases "0 \<le> x")
  case True
  then have "of_int (10 ^ 28) \<le> x * 100" using assms by simp
  then have "10 ^ 28 \<le> round_half_even (x * 100)" by (rule round_half_even_ge)
  then have "(of_int (10 ^ 28) :: rat) \<le> of_int (round_half_even (x * 100))"
    by (simp only: of_int_le_iff)
  then show ?thesis by (simp add: round2_def)
next
  case False
  then have "x * 100 \<le> of_int (- (10 ^ 28))" using assms by simp
  then have "round_half_even (x * 100) \<le> - (10 ^ 28)" by (rule round_half_even_le)
  then have "(of_int (round_half_even (x * 100)) :: rat) \<le> of_int (- (10 ^ 28))"
    by (simp only: of_int_le_iff)
  then show ?thesis by (simp add: round2_def)
qed

lemma quantize_ctx_cents:
  assumes "is_cents x"
  shows "quantize (ctx x) = (if \<bar>x\<bar> < 10 ^ 26 then Inr x else Inl InvalidOperation)"
proof (cases "\<bar>x\<bar> < 10 ^ 26")
  case True
  then have "ctx x = x" using assms by (simp add: ctx_cents)
  then show ?thesis using True assms by (simp add: quantize_def round2_cents)
next
  case False
  then have "10 ^ 26 \<le> \<bar>ctx x\<bar>" by (intro ctx_ge_26) simp
  then have "10 ^ 26 \<le> \<bar>round2 (ctx x)\<bar>" by (rule round2_ge_26)
  then show ?thesis using False by (simp add: quantize_def)
qed

lemma quantize_Inr:
  assumes "quantize x = Inr y"
  shows "y = round2 x" "is_cents y" "\<bar>y\<bar> < 10 ^ 26"
  using assms by (auto simp: quantize_def split: if_splits)

















section \<open>Line items\<close>




text \<open>
  Claim C2. Every line item that \<^verbatim>\<open>save\<close> stores, tax included in the price or not,
  satisfies line_total = net_amount + tax_amount exactly.
\<close>

theorem SaleItem_save_total:
  assumes "SaleItem_save tax_included self = Inr item"
  shows "line_total item = net_amount item + tax_amount item"
proof (cases tax_included)
  case True
  from assms True obtain net_unit net gross tax where
    net: "quantize (dec_mul net_unit (quantity self)) = Inr net" and
    gross: "quantize (dec_mul (dec_sub (unit_price self)
              (dec_mul (unit_price self) (dec_quot (discount_percent self) 100))) (quantity self)) = Inr gross" and
    tax: "quantize (dec_sub gross net) = Inr tax" and
    item: "item = self\<lparr>net_amount := net, line_total := gross, tax_amount := tax\<rparr>"
    by (auto simp: SaleItem_save_def Let_def split: sum.splits)
  have "is_cents (gross - net)"
    using quantize_Inr(2)[OF net] quantize_Inr(2)[OF gross] by (simp add: is_cents_diff)
  then have "tax = gross - net"
    using tax by (simp add: dec_sub_def quantize_ctx_cents split: if_splits)
  then show ?thesis by (simp add: item)
next
  case False
  from assms False obtain net tax gross where
    net: "quantize (dec_mul (dec_sub (unit_price self)
              (dec_mul (unit_price self) (dec_quot (discount_percent self) 100))) (quantity self)) = Inr net" and
    tax: "quantize (dec_mul net (dec_quot (tax_rate self) 100)) = Inr tax" and
    gross: "quantize (dec_add net tax) = Inr gross" and
    item: "item = self\<lparr>net_amount := net, tax_amount := tax, line_total := gross\<rparr>"
    by (auto simp: SaleItem_save_def Let_def split: sum.splits)
  have "is_cents (net + tax)"
    using quantize_Inr(2)[OF net] quantize_Inr(2)[OF tax] by (simp add: is_cents_add)
  then have "gross = net + tax"
    using gross by (simp add: dec_add_def quantize_ctx_cents split: if_splits)
  then show ?thesis by (simp add: item)
qed

theorem SaleItem_save_total_witness:
  "SaleItem_save True spec_line_inclusive =
     Inr (spec_line_inclusive\<lparr>net_amount := 10, line_total := 121 / 10, tax_amount := 21 / 10\<rparr>)
   \<and> (121 / 10 :: rat) = 10 + 21 / 10"
proof -
  have h: "SaleItem_save True spec_line_inclusive =
     Inr (spec_line_inclusive\<lparr>net_amount := 10, line_total := 121 / 10, tax_amount := 21 / 10\<rparr>)"
    unfolding spec_line_inclusive_def by code_simp
  show ?thesis using h SaleItem_save_total[OF h] by simp
qed

section \<open>Sale totals\<close>

lemma dec_add_exact:
  assumes "is_cents x" "is_cents y" "\<bar>x + y\<bar> < 10 ^ 26"
  shows "dec_add x y = x + y"
  unfolding dec_add_def using assms by (intro ctx_cents is_cents_add)

lemma dec_sub_exact:
  assumes "is_cents x" "is_cents y" "\<bar>x - y\<bar> < 10 ^ 26"
  shows "dec_sub x y = x - y"
  unfolding dec_sub_def using assms by (intro ctx_cents is_cents_diff)

lemma is_cents_sum_list: "\<forall>x \<in> set xs. is_cents x \<Longrightarrow> is_cents (sum_list xs)"
  by (induction xs) (auto intro: is_cents_add)

lemma abs_sum_list_le: "\<bar>sum_list xs\<bar> \<le> sum_list (map abs (xs :: rat list))"
  by (induction xs) auto

lemma sum_list_abs_nonneg: "0 \<le> sum_list (map abs (xs :: rat list))"
  by (induction xs) auto


lemma exact_amounts_Cons:
  "exact_amounts (x # xs) \<Longrightarrow> is_cents x \<and> exact_amounts xs \<and> \<bar>x\<bar> + sum_list (map abs xs) < 10 ^ 26"
  using sum_list_abs_nonneg[of xs] by (auto simp: exact_amounts_def)



lemma sum_items_gross:
  assumes "is_cents g" "\<forall>i \<in> set items. is_cents (line_total i)"
    "\<bar>g\<bar> + sum_list (map abs (map line_total items)) < 10 ^ 26"
  shows "fst (snd (snd (sum_items items (n, t, g, b)))) = g + sum_list (map line_total items)"
  using assms
proof (induction items arbitrary: n t g b)
  case Nil
  then show ?case by simp
next
  case (Cons i items)
  have ex: "dec_add g (line_total i) = g + line_total i"
    using Cons.prems sum_list_abs_nonneg[of "map line_total items"]
    by (intro dec_add_exact) auto
  have "fst (snd (snd (sum_items items (dec_add n (net_amount i), dec_add t (tax_amount i), g + line_total i,
      breakdown_add (tax_rate i) (net_amount i) (tax_amount i) b))))
      = g + line_total i + sum_list (map line_total items)"
    using Cons.prems by (intro Cons.IH) (auto intro: is_cents_add)
  then show ?case by (simp add: ex)
qed








text \<open>
  Claim C8, as stated, at one line of 10.00 and a sale-level discount of 15.00: the
  aggregation stores the total -5.00.
\<close>

theorem negative_total_counterexample:
  "total (calculate_totals [line_10] (new_sale\<lparr>discount_amount := 15\<rparr>)) = - 5"
  unfolding line_10_def new_sale_def by code_simp

text \<open>
  Claim C8, amended. For stored line totals and a stored discount amount, the
  aggregation yields total = (sum of the line totals) - discount amount, whatever the
  discount: nothing is rejected or clamped, and the total is negative when the
  discount exceeds the sum.
\<close>

theorem calculate_totals_total:
  assumes "exact_amounts (discount_amount self # map line_total items)"
  shows "total (calculate_totals items self) =
     sum_list (map line_total items) - discount_amount self"
proof -
  have c: "is_cents (discount_amount self)" "\<forall>i \<in> set items. is_cents (line_total i)"
    and b: "\<bar>discount_amount self\<bar> + sum_list (map abs (map line_total items)) < 10 ^ 26"
    using assms by (auto simp: exact_amounts_def)
  have b0: "\<bar>0\<bar> + sum_list (map abs (map line_total items)) < 10 ^ 26"
    using b by simp
  have g: "fst (snd (snd (sum_items items (0, 0, 0, [])))) = sum_list (map line_total items)"
    using sum_items_gross[OF is_cents_0 c(2) b0, of 0 0 "[]"] by simp
  have "\<bar>sum_list (map line_total items) - discount_amount self\<bar> < 10 ^ 26"
    using b abs_sum_list_le[of "map line_total items"] by linarith
  moreover have "is_cents (sum_list (map line_total items))"
    using c(2) by (intro is_cents_sum_list) simp
  ultimately have "dec_sub (sum_list (map line_total items)) (discount_amount self) =
      sum_list (map line_total items) - discount_amount self"
    using c(1) by (intro dec_sub_exact)
  then show ?thesis
    by (simp add: calculate_totals_def Let_def case_prod_beta g)
qed

theorem calculate_totals_total_witness:
  "exact_amounts (discount_amount (new_sale\<lparr>discount_amount := 3\<rparr>) # map line_total [line_10, line_10])
   \<and> total (calculate_totals [line_10, line_10] (new_sale\<lparr>discount_amount := 3\<rparr>)) = 17"
proof -
  have h: "exact_amounts (discount_amount (new_sale\<lparr>discount_amount := 3\<rparr>) # map line_total [line_10, line_10])"
    by (simp add: exact_amounts_def is_cents_def line_10_def new_sale_def)
  show ?thesis using h calculate_totals_total[OF h] by (simp add: line_10_def)
qed

section \<open>Cash register\<close>

lemma or_zero_db_sum [simp]: "or_zero (db_sum xs) = sum_list xs"
  by (simp add: or_zero_def db_sum_def)

lemma abs_in_out:
  "sum_list (map (\<lambda>m. \<bar>amount m\<bar>) (filter (\<lambda>m. movement_type m = TYPE_IN) ms))
   + sum_list (map (\<lambda>m. \<bar>amount m\<bar>) (filter (\<lambda>m. movement_type m = TYPE_OUT) ms))
   = sum_list (map (\<lambda>m. \<bar>amount m\<bar>) ms)"
proof (induction ms)
  case Nil
  then show ?case by simp
next
  case (Cons m ms)
  then show ?case by (cases "movement_type m") auto
qed

lemma abs_sum_map_le: "\<bar>sum_list (map f xs)\<bar> \<le> sum_list (map (\<lambda>x. \<bar>f x :: rat\<bar>) xs)"
  by (induction xs) auto

lemma sum_abs_filter_le:
  "sum_list (map (\<lambda>x. \<bar>f x :: rat\<bar>) (filter P xs)) \<le> sum_list (map (\<lambda>x. \<bar>f x\<bar>) xs)"
  by (induction xs) auto

lemma is_cents_sum_map: "\<forall>x \<in> set xs. is_cents (f x) \<Longrightarrow> is_cents (sum_list (map f xs))"
  by (induction xs) (auto intro: is_cents_add)

lemma expected_amount_exact:
  assumes "exact_amounts (initial_amount self # map amount movements @ map total sales)"
  shows "expected_amount (calculate_expected_amount movements sales self) =
     Some (initial_amount self
           + sum_list (map amount (filter (\<lambda>m. movement_type m = TYPE_IN) movements))
           - sum_list (map amount (filter (\<lambda>m. movement_type m = TYPE_OUT) movements))
           + sum_list (map total (filter (\<lambda>s. payment_method s = PAYMENT_CASH) sales)))"
    and "\<bar>initial_amount self
           + sum_list (map amount (filter (\<lambda>m. movement_type m = TYPE_IN) movements))
           - sum_list (map amount (filter (\<lambda>m. movement_type m = TYPE_OUT) movements))
           + sum_list (map total (filter (\<lambda>s. payment_method s = PAYMENT_CASH) sales))\<bar>
         \<le> sum_list (map abs (initial_amount self # map amount movements @ map total sales))"
    and "is_cents (initial_amount self
           + sum_list (map amount (filter (\<lambda>m. movement_type m = TYPE_IN) movements))
           - sum_list (map amount (filter (\<lambda>m. movement_type m = TYPE_OUT) movements))
           + sum_list (map total (filter (\<lambda>s. payment_method s = PAYMENT_CASH) sales)))"
proof -
  define ins where "ins = sum_list (map amount (filter (\<lambda>m. movement_type m = TYPE_IN) movements))"
  define outs where "outs = sum_list (map amount (filter (\<lambda>m. movement_type m = TYPE_OUT) movements))"
  define cash where "cash = sum_list (map total (filter (\<lambda>s. payment_method s = PAYMENT_CASH) sales))"
  define A where "A = sum_list (map (\<lambda>m. \<bar>amount m\<bar>) movements)"
  define T where "T = sum_list (map (\<lambda>s. \<bar>total s\<bar>) sales)"
  have c0: "is_cents (initial_amount self)"
    and cm: "\<forall>m \<in> set movements. is_cents (amount m)"
    and cs: "\<forall>s \<in> set sales. is_cents (total s)"
    and b: "\<bar>initial_amount self\<bar> + A + T < 10 ^ 26"
    using assms by (auto simp: exact_amounts_def A_def T_def comp_def)
  have ci: "is_cents ins" unfolding ins_def using cm by (intro is_cents_sum_map) auto
  have co: "is_cents outs" unfolding outs_def using cm by (intro is_cents_sum_map) auto
  have cc: "is_cents cash" unfolding cash_def using cs by (intro is_cents_sum_map) auto
  have "\<bar>ins\<bar> + \<bar>outs\<bar> \<le> A"
    unfolding ins_def outs_def A_def
    using abs_sum_map_le[of amount "filter (\<lambda>m. movement_type m = TYPE_IN) movements"]
      abs_sum_map_le[of amount "filter (\<lambda>m. movement_type m = TYPE_OUT) movements"]
      abs_in_out[of movements]
    by linarith
  moreover have "\<bar>cash\<bar> \<le> T"
    unfolding cash_def T_def
    using abs_sum_map_le[of total "filter (\<lambda>s. payment_method s = PAYMENT_CASH) sales"]
      sum_abs_filter_le[of total "\<lambda>s. payment_method s = PAYMENT_CASH" sales]
    by linarith
  ultimately have bb: "\<bar>initial_amount self\<bar> + \<bar>cash\<bar> + \<bar>ins\<bar> + \<bar>outs\<bar> < 10 ^ 26"
    and le: "\<bar>initial_amount self\<bar> + \<bar>cash\<bar> + \<bar>ins\<bar> + \<bar>outs\<bar> \<le> \<bar>initial_amount self\<bar> + A + T"
    using b by linarith+
  have e1: "dec_add (initial_amount self) cash = initial_amount self + cash"
    using c0 cc bb by (intro dec_add_exact) linarith+
  have e2: "dec_add (initial_amount self + cash) ins = initial_amount self + cash + ins"
    using c0 cc ci bb by (intro dec_add_exact is_cents_add) linarith+
  have e3: "dec_sub (initial_amount self + cash + ins) outs = initial_amount self + cash + ins - outs"
    using c0 cc ci co bb by (intro dec_sub_exact is_cents_add) linarith+
  show "expected_amount (calculate_expected_amount movements sales self) =
     Some (initial_amount self
           + sum_list (map amount (filter (\<lambda>m. movement_type m = TYPE_IN) movements))
           - sum_list (map amount (filter (\<lambda>m. movement_type m = TYPE_OUT) movements))
           + sum_list (map total (filter (\<lambda>s. payment_method s = PAYMENT_CASH) sales)))"
    by (simp add: calculate_expected_amount_def Let_def e1 e2 e3 flip: ins_def outs_def cash_def)
  show "\<bar>initial_amount self
           + sum_list (map amount (filter (\<lambda>m. movement_type m = TYPE_IN) movements))
           - sum_list (map amount (filter (\<lambda>m. movement_type m = TYPE_OUT) movements))
           + sum_list (map total (filter (\<lambda>s. payment_method s = PAYMENT_CASH) sales))\<bar>
         \<le> sum_list (map abs (initial_amount self # map amount movements @ map total sales))"
    using le by (simp add: comp_def flip: ins_def outs_def cash_def A_def T_def)
  show "is_cents (initial_amount self
           + sum_list (map amount (filter (\<lambda>m. movement_type m = TYPE_IN) movements))
           - sum_list (map amount (filter (\<lambda>m. movement_type m = TYPE_OUT) movements))
           + sum_list (map total (filter (\<lambda>s. payment_method s = PAYMENT_CASH) sales)))"
    using c0 ci co cc by (auto simp flip: ins_def outs_def cash_def intro!: is_cents_add is_cents_diff)
qed

text \<open>
  Claim C5, as stated, at a session with opening float 100.00 and one cancelled
  cash-paid sale of 75.00: the code expects 175.00, the formula of the claim 100.00.
\<close>

theorem expected_amount_counterexample:
  "sale_status (cash_sale_75\<lparr>sale_status := STATUS_CANCELLED\<rparr>) \<noteq> STATUS_COMPLETED
   \<and> expected_amount (calculate_expected_amount []
         [cash_sale_75\<lparr>sale_status := STATUS_CANCELLED\<rparr>] open_register) = Some 175
   \<and> spec_expected [] [cash_sale_75\<lparr>sale_status := STATUS_CANCELLED\<rparr>] open_register = 100"
  unfolding cash_sale_75_def new_sale_def open_register_def by code_simp

text \<open>
  Claim C5, amended. For stored amounts, the expected amount of a session is the
  opening float plus the sum of the 'in' movements minus the sum of the 'out'
  movements plus the sum of the totals of all cash-paid sales attributed to the
  session, whatever their status (sales that are not cash-paid contribute nothing);
  closing with a counted amount sets difference = counted amount - expected; a
  session with no movements and no sales reconciles to its opening float.
\<close>

theorem close_register_reconciles:
  assumes "exact_amounts (final # initial_amount self # map amount movements @ map total sales)"
  shows "expected_amount (close_register now movements sales final notes self) =
           Some (initial_amount self
             + sum_list (map amount (filter (\<lambda>m. movement_type m = TYPE_IN) movements))
             - sum_list (map amount (filter (\<lambda>m. movement_type m = TYPE_OUT) movements))
             + sum_list (map total (filter (\<lambda>s. payment_method s = PAYMENT_CASH) sales)))
         \<and> difference (close_register now movements sales final notes self) =
           Some (final - (initial_amount self
             + sum_list (map amount (filter (\<lambda>m. movement_type m = TYPE_IN) movements))
             - sum_list (map amount (filter (\<lambda>m. movement_type m = TYPE_OUT) movements))
             + sum_list (map total (filter (\<lambda>s. payment_method s = PAYMENT_CASH) sales))))
         \<and> expected_amount (close_register now [] [] final notes self) = Some (initial_amount self)"
proof -
  define self1 where "self1 = self\<lparr>final_amount := Some final, closing_notes := notes,
      closed_at := Some now, status := STATUS_CLOSED\<rparr>"
  define E where "E = initial_amount self
             + sum_list (map amount (filter (\<lambda>m. movement_type m = TYPE_IN) movements))
             - sum_list (map amount (filter (\<lambda>m. movement_type m = TYPE_OUT) movements))
             + sum_list (map total (filter (\<lambda>s. payment_method s = PAYMENT_CASH) sales))"
  have i1: "initial_amount self1 = initial_amount self" by (simp add: self1_def)
  have cf: "is_cents final" and ex: "exact_amounts (initial_amount self1 # map amount movements @ map total sales)"
    and bf: "\<bar>final\<bar> + sum_list (map abs (initial_amount self # map amount movements @ map total sales)) < 10 ^ 26"
    using exact_amounts_Cons[OF assms] by (simp_all add: i1)
  have e: "expected_amount (calculate_expected_amount movements sales self1) = Some E"
    using expected_amount_exact(1)[OF ex] by (simp add: i1 E_def)
  have bE: "\<bar>E\<bar> \<le> sum_list (map abs (initial_amount self # map amount movements @ map total sales))"
    using expected_amount_exact(2)[OF ex] by (simp add: i1 E_def)
  have cE: "is_cents E" using expected_amount_exact(3)[OF ex] by (simp add: i1 E_def)
  have d: "dec_sub final E = final - E"
    using cf cE bE bf by (intro dec_sub_exact) linarith+
  have "exact_amounts [initial_amount self1]"
  proof -
    have "\<bar>initial_amount self1\<bar> \<le> sum_list (map abs (initial_amount self1 # map amount movements @ map total sales))"
      using sum_list_abs_nonneg[of "map amount movements @ map total sales"] by simp
    then show ?thesis using ex by (auto simp: exact_amounts_def)
  qed
  then have ex0: "exact_amounts (initial_amount self1 # map amount [] @ map total [])" by simp
  have e0: "expected_amount (calculate_expected_amount [] [] self1) = Some (initial_amount self)"
    using expected_amount_exact(1)[OF ex0] by (simp add: i1)
  show ?thesis
    unfolding E_def[symmetric]
    by (simp add: close_register_def Let_def e e0 d flip: self1_def)
qed

theorem close_register_reconciles_witness:
  "expected_amount (close_register 10 spec_movements [cash_sale_75] 200 [] open_register) = Some 205
   \<and> difference (close_register 10 spec_movements [cash_sale_75] 200 [] open_register) = Some (- 5)
   \<and> expected_amount (close_register 10 [] [] 200 [] open_register) = Some 100"
proof -
  have h: "exact_amounts (200 # initial_amount open_register # map amount spec_movements
             @ map total [cash_sale_75])"
    by (simp add: exact_amounts_def is_cents_def open_register_def spec_movements_def
        cash_sale_75_def new_sale_def)
  show ?thesis
    using close_register_reconciles[OF h, of 10 "[]"]
    by (simp add: open_register_def spec_movements_def cash_sale_75_def new_sale_def)
qed

text \<open>
  Claim C7, as stated, at a session closed with a count of 200.00: closing it again
  with a count of 300.00 succeeds and replaces the final amount, the close timestamp,
  the expected amount and the difference.
\<close>

theorem close_twice_counterexample:
  "status closed_register = STATUS_CLOSED
   \<and> final_amount closed_register = Some 200
   \<and> final_amount (close_register 20 [] [] 300 ''second count'' closed_register) = Some 300
   \<and> closed_at (close_register 20 [] [] 300 ''second count'' closed_register) = Some 20
   \<and> expected_amount (close_register 20 [] [] 300 ''second count'' closed_register) = Some 100
   \<and> difference (close_register 20 [] [] 300 ''second count'' closed_register) = Some 200"
  unfolding closed_register_def by code_simp

text \<open>
  Claim C7, amended. \<^verbatim>\<open>close_register\<close> leaves every session closed, so no call
  of it takes a session from closed back to open; it does not look at the earlier
  status: closing a closed session succeeds like closing an open one and overwrites
  the final amount, the closing notes, the close timestamp, the expected amount and
  the difference.
\<close>

theorem close_register_overwrites:
  "status (close_register now movements sales final notes self) = STATUS_CLOSED
   \<and> final_amount (close_register now movements sales final notes self) = Some final
   \<and> closing_notes (close_register now movements sales final notes self) = notes
   \<and> closed_at (close_register now movements sales final notes self) = Some now
   \<and> close_register now movements sales final notes
        (self\<lparr>status := s, final_amount := f, expected_amount := e, difference := d,
              closing_notes := n, closed_at := c\<rparr>)
      = close_register now movements sales final notes self"
  by (simp add: close_register_def calculate_expected_amount_def Let_def)

end
